theory Spec2Isabelle
  imports Complex_Main
begin

section \<open>Strings and the text primitives of Python used by the agents\<close>

text \<open>
  A Python \<open>str\<close> is a sequence of Unicode code points; it is modelled as the list of
  its code points, so that the CJK punctuation of the regular expressions is one
  character, as it is for Python. \<open>ascii\<close> turns an ASCII literal into such a string.
\<close>

type_synonym pystr = "nat list"

definition ascii :: "string \<Rightarrow> pystr" where
  "ascii s = map of_char s"

text \<open>
  \<open>str.isspace\<close>, which is also the class \<open>\s\<close> of \<open>re\<close> on \<open>str\<close> patterns and what
  \<open>str.strip()\<close> removes.
\<close>

definition is_space :: "nat \<Rightarrow> bool" where
  "is_space c \<longleftrightarrow>
     (9 \<le> c \<and> c \<le> 13) \<or> (28 \<le> c \<and> c \<le> 32) \<or> c = 133 \<or> c = 160 \<or> c = 5760 \<or>
     (8192 \<le> c \<and> c \<le> 8202) \<or> c = 8232 \<or> c = 8233 \<or> c = 8239 \<or> c = 8287 \<or> c = 12288"

text \<open>\<open>s.strip()\<close>\<close>

definition strip :: "pystr \<Rightarrow> pystr" where
  "strip s = rev (dropWhile is_space (rev (dropWhile is_space s)))"

text \<open>
  \<open>s.split("\n\n")\<close>: the separators are found from the left and do not overlap; the
  first argument is the piece read so far.
\<close>

fun split_blank_from :: "pystr \<Rightarrow> pystr \<Rightarrow> pystr list" where
  "split_blank_from cur (a # b # rest) =
     (if a = 10 \<and> b = 10 then cur # split_blank_from [] rest
      else split_blank_from (cur @ [a]) (b # rest))"
| "split_blank_from cur rest = [cur @ rest]"

definition split_blank :: "pystr \<Rightarrow> pystr list" where
  "split_blank s = split_blank_from [] s"

text \<open>\<open>"\n\n".join(xs)\<close>\<close>

fun join_blank :: "pystr list \<Rightarrow> pystr" where
  "join_blank [] = []"
| "join_blank [x] = x"
| "join_blank (x # y # ys) = x @ [10, 10] @ join_blank (y # ys)"

text \<open>
  The characters of the lookbehind \<open>(?<=[.!?\<dots>])\<close>: full stop, exclamation mark and
  question mark, and their CJK forms U+3002, U+FF01, U+FF1F.
\<close>

definition is_sentence_end :: "nat \<Rightarrow> bool" where
  "is_sentence_end c \<longleftrightarrow> c = 46 \<or> c = 33 \<or> c = 63 \<or> c = 12290 \<or> c = 65281 \<or> c = 65311"

text \<open>
  \<open>re.split(r'(?<=[.!?\<dots>])\s+', para)\<close>: a whitespace run that follows a sentence end is
  a separator (the run is maximal, since the character before it is not whitespace); the
  first argument is the piece read so far.
\<close>

function split_sentences_from :: "pystr \<Rightarrow> pystr \<Rightarrow> pystr list" where
  "split_sentences_from cur [] = [cur]"
| "split_sentences_from cur (c # rest) =
     (if is_space c \<and> cur \<noteq> [] \<and> is_sentence_end (last cur)
      then cur # split_sentences_from [] (dropWhile is_space rest)
      else split_sentences_from (cur @ [c]) rest)"
  by pat_completeness auto
termination
  by (relation "measure (\<lambda>(cur, rest). length rest)")
     (auto simp: length_dropWhile_le less_Suc_eq_le)

definition split_sentences :: "pystr \<Rightarrow> pystr list" where
  "split_sentences para = split_sentences_from [] para"

text \<open>
  What \<open>f.read()\<close> returns for a file opened in text mode with the default \<open>newline\<close>:
  every \<open>\r\n\<close> and every other \<open>\r\<close> of the file is read as \<open>\n\<close>. The files hold the
  text as it was written, as on a system whose line separator is \<open>\n\<close>, and every
  string is taken to be encodable in UTF-8, so that writing does not fail.
\<close>

fun universal_newlines :: "pystr \<Rightarrow> pystr" where
  "universal_newlines [] = []"
| "universal_newlines [c] = [if c = 13 then 10 else c]"
| "universal_newlines (c # d # rest) =
     (if c = 13 \<and> d = 10 then 10 # universal_newlines rest
      else (if c = 13 then 10 else c) # universal_newlines (d # rest))"

section \<open>The tokenizer\<close>

text \<open>
  \<open>self.tokenizer\<close> is the \<open>cl100k_base\<close> encoding of the library tiktoken, which is not
  part of the repository: the agent only calls \<open>encode\<close> and \<open>decode\<close>, so the tokenizer
  is a parameter, a pair of functions over some type of tokens.
\<close>

record 'tok tokenizer =
  tk_encode :: "pystr \<Rightarrow> 'tok list"
  tk_decode :: "'tok list \<Rightarrow> pystr"

definition count_tokens :: "'tok tokenizer \<Rightarrow> pystr \<Rightarrow> int" where
  "count_tokens tk s = int (length (tk_encode tk s))"

text \<open>The tokenizer with one token for each character, used at concrete inputs.\<close>

definition char_tokenizer :: "nat tokenizer" where
  "char_tokenizer = \<lparr>tk_encode = (\<lambda>s. s), tk_decode = (\<lambda>ts. ts)\<rparr>"

section \<open>ContentProcessorAgent\<close>

datatype py_error = ValueError pystr | OtherException pystr

text \<open>
  The slices \<open>sent_tokens[i:i + CHUNK_SIZE]\<close> for \<open>i\<close> in
  \<open>range(0, len(sent_tokens), CHUNK_SIZE)\<close>, for a positive step.
\<close>

function token_windows :: "nat \<Rightarrow> 'a list \<Rightarrow> 'a list list" where
  "token_windows n xs =
     (if n = 0 \<or> xs = [] then [] else take n xs # token_windows n (drop n xs))"
  by pat_completeness auto
termination
  by (relation "measure (\<lambda>(n, xs). length xs)") auto

declare token_windows.simps [simp del]

text \<open>
  The chunks of the hard split of one sentence. \<open>range\<close> raises ValueError for a step
  of zero and is empty for a negative step.
\<close>

definition hard_split :: "'tok tokenizer \<Rightarrow> int \<Rightarrow> 'tok list \<Rightarrow> py_error + pystr list" where
  "hard_split tk chunk_size sent_tokens =
     (if chunk_size = 0 then Inl (ValueError (ascii ''range() arg 3 must not be zero''))
      else if chunk_size < 0 then Inr []
      else Inr (map (tk_decode tk) (token_windows (nat chunk_size) sent_tokens)))"

text \<open>
  Each chunk carries the place of the source that appended it: the early return of the
  whole content, a join of \<open>current_chunk\<close>, or a window of the hard split. The chunks
  the agent returns are the second components.
\<close>

datatype origin = Whole | Joined | Window

text \<open>The state of the loops: \<open>chunks\<close>, \<open>current_chunk\<close> and \<open>current_length\<close>.\<close>

type_synonym chunk_state = "(origin \<times> pystr) list \<times> pystr list \<times> int"

fun sentence_loop ::
  "'tok tokenizer \<Rightarrow> int \<Rightarrow> pystr list \<Rightarrow> chunk_state \<Rightarrow> py_error + chunk_state" where
  "sentence_loop tk chunk_size [] st = Inr st"
| "sentence_loop tk chunk_size (sentence # rest) (chunks, current_chunk, current_length) =
     (let sent_tokens = tk_encode tk sentence;
          sent_length = int (length sent_tokens)
      in if sent_length > chunk_size then
           (case hard_split tk chunk_size sent_tokens of
              Inl e \<Rightarrow> Inl e
            | Inr subs \<Rightarrow>
                sentence_loop tk chunk_size rest
                  (chunks @ map (Pair Window) subs, current_chunk, current_length))
         else if current_length + sent_length > chunk_size then
           sentence_loop tk chunk_size rest
             (chunks @ [(Joined, join_blank current_chunk)], [sentence], sent_length)
         else
           sentence_loop tk chunk_size rest
             (chunks, current_chunk @ [sentence], current_length + sent_length))"

fun paragraph_loop ::
  "'tok tokenizer \<Rightarrow> int \<Rightarrow> pystr list \<Rightarrow> chunk_state \<Rightarrow> py_error + chunk_state" where
  "paragraph_loop tk chunk_size [] st = Inr st"
| "paragraph_loop tk chunk_size (para # rest) (chunks, current_chunk, current_length) =
     (let para_length = int (length (tk_encode tk para))
      in if para_length > chunk_size then
           (case sentence_loop tk chunk_size (split_sentences para)
                   (chunks, current_chunk, current_length) of
              Inl e \<Rightarrow> Inl e
            | Inr st \<Rightarrow> paragraph_loop tk chunk_size rest st)
         else if current_length + para_length > chunk_size then
           paragraph_loop tk chunk_size rest
             (chunks @ [(Joined, join_blank current_chunk)], [para], para_length)
         else
           paragraph_loop tk chunk_size rest
             (chunks, current_chunk @ [para], current_length + para_length))"

text \<open>\<open>[p for p in content.split("\n\n") if p.strip()]\<close>\<close>

definition paragraphs :: "pystr \<Rightarrow> pystr list" where
  "paragraphs content = filter (\<lambda>p. strip p \<noteq> []) (split_blank content)"

definition split_into_chunks_tagged ::
  "'tok tokenizer \<Rightarrow> int \<Rightarrow> pystr \<Rightarrow> py_error + (origin \<times> pystr) list" where
  "split_into_chunks_tagged tk chunk_size content =
     (if int (length (tk_encode tk content)) \<le> chunk_size then Inr [(Whole, content)]
      else case paragraph_loop tk chunk_size (paragraphs content) ([], [], 0) of
             Inl e \<Rightarrow> Inl e
           | Inr (chunks, current_chunk, current_length) \<Rightarrow>
               Inr (if current_chunk \<noteq> []
                    then chunks @ [(Joined, join_blank current_chunk)] else chunks))"

definition split_into_chunks :: "'tok tokenizer \<Rightarrow> int \<Rightarrow> pystr \<Rightarrow> py_error + pystr list" where
  "split_into_chunks tk chunk_size content =
     (case split_into_chunks_tagged tk chunk_size content of
        Inl e \<Rightarrow> Inl e
      | Inr tagged \<Rightarrow> Inr (map snd tagged))"

text \<open>
  Step 1 of \<open>_clean_content\<close>, \<open>re.sub(r'\n\s*\n\s*\n+', '\n\n', content)\<close>. Every
  character the pattern reads is whitespace, so a match that starts at a newline stays
  inside the whitespace run that starts there; the greedy \<open>\s*\<close> make it end at the
  last newline of that run, and it exists when the run has three newlines or more. The
  scan goes on right after the match, or at the next character when there is none.
\<close>

definition after_last_newline :: "pystr \<Rightarrow> pystr" where
  "after_last_newline run = rev (takeWhile (\<lambda>x. x \<noteq> 10) (rev run))"

function squeeze_blank_lines :: "pystr \<Rightarrow> pystr" where
  "squeeze_blank_lines [] = []"
| "squeeze_blank_lines (c # cs) =
     (if c = 10 \<and> 3 \<le> count_list (takeWhile is_space (c # cs)) 10
      then [10, 10] @
           squeeze_blank_lines
             (after_last_newline (takeWhile is_space (c # cs)) @ dropWhile is_space (c # cs))
      else c # squeeze_blank_lines cs)"
  by pat_completeness auto
termination
proof (relation "measure length", goal_cases)
  case 1
  show ?case by simp
next
  case (2 c cs)
  let ?run = "takeWhile is_space (c # cs)"
  from 2 have "count_list ?run 10 \<noteq> 0" by linarith
  then have "10 \<in> set (rev ?run)" by (metis count_notin set_rev)
  then have "takeWhile (\<lambda>x. x \<noteq> 10) (rev ?run) \<noteq> rev ?run"
    by (metis (mono_tags, lifting) takeWhile_eq_all_conv)
  moreover have "length (takeWhile (\<lambda>x. x \<noteq> 10) (rev ?run)) \<le> length (rev ?run)"
    by (rule length_takeWhile_le)
  ultimately have "length (takeWhile (\<lambda>x. x \<noteq> 10) (rev ?run)) < length ?run"
    by (metis (no_types, lifting) length_rev le_neq_implies_less takeWhile_eq_take take_all)
  moreover have "length ?run + length (dropWhile is_space (c # cs)) = length (c # cs)"
    by (metis length_append takeWhile_dropWhile_id)
  ultimately show ?case
    by (simp add: after_last_newline_def del: takeWhile.simps dropWhile.simps)
next
  case (3 c cs)
  show ?case by simp
qed

text \<open>
  Step 2 deletes every character outside the class of the pattern: CJK ideographs
  U+4E00 to U+9FA5, ASCII letters and digits, the listed ASCII and CJK punctuation,
  whitespace, hyphen and the two quotes.
\<close>

definition is_kept :: "nat \<Rightarrow> bool" where
  "is_kept c \<longleftrightarrow>
     (19968 \<le> c \<and> c \<le> 40869) \<or> (97 \<le> c \<and> c \<le> 122) \<or> (65 \<le> c \<and> c \<le> 90) \<or>
     (48 \<le> c \<and> c \<le> 57) \<or>
     c \<in> {46, 44, 59, 58, 33, 63, 40, 41, 91, 93, 123, 125} \<or>
     c \<in> {65292, 12290, 65307, 65306, 65281, 65311, 65288, 65289,
          12304, 12305, 12300, 12301, 12302, 12303} \<or>
     is_space c \<or> c = 45 \<or> c = 39 \<or> c = 34"

text \<open>Step 3, \<open>re.sub(r'\s+', ' ', content)\<close>.\<close>

function collapse_spaces :: "pystr \<Rightarrow> pystr" where
  "collapse_spaces [] = []"
| "collapse_spaces (c # cs) =
     (if is_space c then 32 # collapse_spaces (dropWhile is_space cs)
      else c # collapse_spaces cs)"
  by pat_completeness auto
termination
  by (relation "measure length") (auto simp: length_dropWhile_le less_Suc_eq_le)

definition clean_content :: "pystr \<Rightarrow> pystr" where
  "clean_content content =
     strip (collapse_spaces (filter is_kept (squeeze_blank_lines content)))"


text \<open>\<open>process_content\<close>, with \<open>CHUNK_SIZE\<close> of the configuration as a parameter.\<close>

definition process_content :: "'tok tokenizer \<Rightarrow> int \<Rightarrow> pystr \<Rightarrow> py_error + pystr list" where
  "process_content tk chunk_size content =
     split_into_chunks tk chunk_size (clean_content content)"

section \<open>SummaryStorage\<close>

text \<open>\<open>str(n)\<close> for a natural number.\<close>

fun decimal :: "nat \<Rightarrow> pystr" where
  "decimal n = (if n < 10 then [48 + n] else decimal (n div 10) @ [48 + n mod 10])"

declare decimal.simps [simp del]

record summary_metadata =
  md_id :: pystr
  md_url :: pystr
  md_timestamp :: pystr
  md_timestamp_unix :: real
  md_preview :: pystr

text \<open>The dictionary that \<open>get_summary_by_url\<close> returns.\<close>

record summary_info =
  si_id :: pystr
  si_url :: pystr
  si_timestamp :: pystr
  si_timestamp_unix :: real
  si_preview :: pystr
  si_content :: pystr

text \<open>
  The storage directory: \<open>summary_index.json\<close>, which is \<open>None\<close> when the file is
  missing or is not valid JSON, and the files \<open><id>.txt\<close>, by summary id.
\<close>

record storage =
  index_file :: "(pystr \<rightharpoonup> summary_metadata) option"
  summary_files :: "pystr \<rightharpoonup> pystr"

text \<open>
  What a call of \<open>save_summary\<close> reads from outside the storage: the MD5 digest, the two
  readings of \<open>time.time()\<close>, \<open>uuid.uuid4().hex\<close> and the formatted \<open>datetime.now()\<close>.
\<close>

record clock =
  md5_hexdigest :: "pystr \<Rightarrow> pystr"
  time_int :: nat
  uuid4_hex :: pystr
  now_formatted :: pystr
  time_unix :: real

definition load_index :: "storage \<Rightarrow> (pystr \<rightharpoonup> summary_metadata)" where
  "load_index st = (case index_file st of None \<Rightarrow> Map.empty | Some index \<Rightarrow> index)"

definition save_index :: "storage \<Rightarrow> (pystr \<rightharpoonup> summary_metadata) \<Rightarrow> storage" where
  "save_index st index = st\<lparr>index_file := Some index\<rparr>"

definition url_to_id :: "clock \<Rightarrow> pystr \<Rightarrow> pystr" where
  "url_to_id ck url =
     take 8 (md5_hexdigest ck url) @ [45] @ decimal (time_int ck) @ [45] @ take 4 (uuid4_hex ck)"

text \<open>
  \<open>save_summary\<close> returns the id and the new storage. In \<open>existing_id or
  self._url_to_id(url)\<close> an empty id of the index counts as no id.
\<close>

definition save_summary :: "clock \<Rightarrow> storage \<Rightarrow> pystr \<Rightarrow> pystr \<Rightarrow> pystr \<times> storage" where
  "save_summary ck st url content =
     (let index = load_index st;
          existing_id = (case index url of None \<Rightarrow> None | Some md \<Rightarrow> Some (md_id md));
          summary_id = (case existing_id of
                          None \<Rightarrow> url_to_id ck url
                        | Some i \<Rightarrow> if i \<noteq> [] then i else url_to_id ck url);
          st1 = st\<lparr>summary_files := (summary_files st)(summary_id \<mapsto> content)\<rparr>;
          preview = map (\<lambda>c. if c = 10 then 32 else c) (take 200 content);
          index1 = index(url \<mapsto>
                     \<lparr>md_id = summary_id, md_url = url, md_timestamp = now_formatted ck,
                      md_timestamp_unix = time_unix ck, md_preview = preview\<rparr>)
      in (summary_id, save_index st1 index1))"

definition get_summary_by_url :: "storage \<Rightarrow> pystr \<Rightarrow> summary_info option" where
  "get_summary_by_url st url =
     (case load_index st url of
        None \<Rightarrow> None
      | Some metadata \<Rightarrow>
          (case summary_files st (md_id metadata) of
             None \<Rightarrow> None
           | Some content \<Rightarrow>
               Some \<lparr>si_id = md_id metadata, si_url = url,
                     si_timestamp = md_timestamp metadata,
                     si_timestamp_unix = md_timestamp_unix metadata,
                     si_preview = md_preview metadata,
                     si_content = universal_newlines content\<rparr>))"

section \<open>WebFetcherAgent\<close>

text \<open>
  The directory of fetched pages: the files \<open><md5 of the url>.txt\<close>, by digest, and
  \<open>content_index.json\<close> (\<open>None\<close> when missing or not valid JSON).
\<close>

record web_cache =
  content_files :: "pystr \<rightharpoonup> pystr"
  content_index :: "(pystr \<rightharpoonup> pystr) option"

definition update_content_index :: "web_cache \<Rightarrow> pystr \<Rightarrow> pystr \<Rightarrow> web_cache" where
  "update_content_index wc url file_name =
     (let index = (case content_index wc of None \<Rightarrow> Map.empty | Some index \<Rightarrow> index)
      in wc\<lparr>content_index := Some (index(url \<mapsto> file_name))\<rparr>)"

text \<open>
  \<open>fetch_webpage\<close>; \<open>fetch\<close> is the outcome of \<open>WebpageContentFetcher.fetch\<close>, which reads
  the network. Any exception of the \<open>try\<close> block gives \<open>None\<close>.
\<close>

definition fetch_webpage ::
  "(pystr \<Rightarrow> pystr) \<Rightarrow> (pystr \<Rightarrow> py_error + pystr) \<Rightarrow> web_cache \<Rightarrow> pystr
     \<Rightarrow> pystr option \<times> web_cache" where
  "fetch_webpage md5 fetch wc url =
     (case content_files wc (md5 url) of
        Some cached \<Rightarrow> (Some (universal_newlines cached), wc)
      | None \<Rightarrow>
          (case fetch url of
             Inl e \<Rightarrow> (None, wc)
           | Inr content \<Rightarrow>
               (Some content,
                update_content_index
                  (wc\<lparr>content_files := (content_files wc)(md5 url \<mapsto> content)\<rparr>)
                  url (md5 url @ ascii ''.txt''))))"

section \<open>SummarizationAgentTeam\<close>

text \<open>
  The shapes of object that the orchestrator accepts from the summarizer and the
  integrator, in the order of its tests: a \<open>str\<close>, an object with \<open>content\<close>, an object
  with \<open>message.content\<close>, a dictionary with the key \<open>content\<close>, and anything else, which
  carries its \<open>str()\<close>.
\<close>

datatype response =
    Str pystr
  | HasContent pystr
  | HasMessageContent pystr
  | DictContent pystr
  | Other pystr

fun to_text :: "response \<Rightarrow> pystr" where
  "to_text (Str s) = s"
| "to_text (HasContent s) = s"
| "to_text (HasMessageContent s) = s"
| "to_text (DictContent s) = s"
| "to_text (Other s) = s"

text \<open>
  What one run of the pipeline reads from outside: the tokenizer, \<open>CHUNK_SIZE\<close>, the
  clock of the storage, and the outcomes of the three calls that leave the process.
  \<open>generate_summary\<close> is given the index of the chunk as well, so that two calls on
  equal chunks may differ.
\<close>

record 'tok env =
  tokenizer :: "'tok tokenizer"
  chunk_size :: int
  the_clock :: clock
  fetcher_fetch :: "pystr \<Rightarrow> py_error + pystr"
  generate_summary :: "nat \<Rightarrow> pystr \<Rightarrow> py_error + response"
  integrate_summaries :: "pystr list \<Rightarrow> pystr \<Rightarrow> py_error + response"

text \<open>The calls the orchestrator makes to its agents, in order.\<close>

datatype event =
    FetchWebpage pystr
  | ProcessContent pystr
  | GenerateSummary pystr
  | IntegrateSummaries "pystr list" pystr

record world =
  store :: storage
  web :: web_cache
  calls :: "event list"

text \<open>The string \<open>f"[\<dots> {i+1} \<dots>]"\<close> that stands for a chunk whose summary failed.\<close>

definition placeholder :: "nat \<Rightarrow> pystr" where
  "placeholder i = [91, 22359, 32] @ decimal (i + 1) @ [32, 22788, 29702, 38169, 35823, 93]"

text \<open>The loop over \<open>enumerate(content_chunks)\<close>, from index \<open>i\<close>.\<close>

fun summarize_each :: "'tok env \<Rightarrow> nat \<Rightarrow> pystr list \<Rightarrow> pystr list" where
  "summarize_each env i [] = []"
| "summarize_each env i (chunk # rest) =
     (case generate_summary env i chunk of
        Inl e \<Rightarrow> placeholder i
      | Inr summary_obj \<Rightarrow> to_text summary_obj) # summarize_each env (Suc i) rest"

text \<open>Step 4: the final summary, and whether the integrator was called.\<close>

definition integrate_stage :: "'tok env \<Rightarrow> pystr \<Rightarrow> pystr list \<Rightarrow> pystr \<times> event list" where
  "integrate_stage env url chunk_summaries =
     (if length chunk_summaries = 1 then (chunk_summaries ! 0, [])
      else (case integrate_summaries env chunk_summaries url of
              Inl e \<Rightarrow> join_blank chunk_summaries
            | Inr integrated_obj \<Rightarrow> to_text integrated_obj,
            [IntegrateSummaries chunk_summaries url]))"

definition cannot_fetch :: "pystr \<Rightarrow> py_error" where
  "cannot_fetch url =
     ValueError ([26080, 27861, 33719, 21462, 32593, 39029, 20869, 23481, 58, 32] @ url)"

text \<open>\<open>start_summarization\<close>: the result, or the exception raised, and the new world.\<close>

definition start_summarization ::
  "'tok env \<Rightarrow> world \<Rightarrow> pystr \<Rightarrow> (py_error + pystr) \<times> world" where
  "start_summarization env w url =
     (case get_summary_by_url (store w) url of
        Some cached_summary \<Rightarrow> (Inr (si_content cached_summary), w)
      | None \<Rightarrow>
          (let (webpage_content, wc) =
                 fetch_webpage (md5_hexdigest (the_clock env)) (fetcher_fetch env) (web w) url;
               w1 = w\<lparr>web := wc, calls := calls w @ [FetchWebpage url]\<rparr>
           in case webpage_content of
                None \<Rightarrow> (Inl (cannot_fetch url), w1)
              | Some content \<Rightarrow>
                  if content = [] then (Inl (cannot_fetch url), w1)
                  else
                    (let w2 = w1\<lparr>calls := calls w1 @ [ProcessContent content]\<rparr>
                     in case process_content (tokenizer env) (chunk_size env) content of
                          Inl e \<Rightarrow> (Inl e, w2)
                        | Inr content_chunks \<Rightarrow>
                            (let chunk_summaries = summarize_each env 0 content_chunks;
                                 (final_summary, integrated) =
                                   integrate_stage env url chunk_summaries;
                                 w3 = w2\<lparr>calls := calls w2 @
                                             map GenerateSummary content_chunks @ integrated\<rparr>;
                                 (summary_id, st) =
                                   save_summary (the_clock env) (store w3) url final_summary
                             in (Inr final_summary, w3\<lparr>store := st\<rparr>)))))"

section \<open>Concrete inputs\<close>

text \<open>
  A clock, an environment and an empty world for running the model: the page has three
  sentences, each summary succeeds and the integration fails.
\<close>

definition example_clock :: clock where
  "example_clock =
     \<lparr>md5_hexdigest = (\<lambda>url. url), time_int = 1700000000, uuid4_hex = ascii ''0123abcd'',
      now_formatted = ascii ''2024-01-01 00:00:00'', time_unix = 1700000000\<rparr>"

definition example_env :: "nat env" where
  "example_env =
     \<lparr>tokenizer = char_tokenizer, chunk_size = 4, the_clock = example_clock,
      fetcher_fetch = (\<lambda>url. Inr (ascii ''ab. cd. ef.'')),
      generate_summary =
        (\<lambda>i chunk. Inr (Str (if i = 0 then ascii ''A discusses X.''
                               else if i = 1 then ascii ''B discusses Y.''
                               else ascii ''C discusses Z.''))),
      integrate_summaries = (\<lambda>summaries url. Inl (OtherException (ascii ''backend down'')))\<rparr>"

definition example_world :: world where
  "example_world =
     \<lparr>store = \<lparr>index_file = Some Map.empty, summary_files = Map.empty\<rparr>,
      web = \<lparr>content_files = Map.empty, content_index = Some Map.empty\<rparr>,
      calls = []\<rparr>"

text \<open>A storage whose index names a summary file that is not on disk.\<close>

definition dangling_storage :: storage where
  "dangling_storage =
     \<lparr>index_file =
        Some [ascii ''http://a'' \<mapsto>
                \<lparr>md_id = ascii ''id1'', md_url = ascii ''http://a'',
                 md_timestamp = ascii ''2024-01-01 00:00:00'',
                 md_timestamp_unix = 1700000000, md_preview = ascii ''text''\<rparr>],
      summary_files = Map.empty\<rparr>"

section \<open>Invariant of the chunking loops\<close>

text \<open>
  A chunk is a bounded join when it joins pieces whose token counts, each counted on its
  own, sum to at most the chunk size. The loops keep \<open>current_length\<close> equal to the sum
  of the counts of \<open>current_chunk\<close>, within the chunk size unless \<open>current_chunk\<close> is
  empty, and append only bounded joins and windows.
\<close>

definition bounded_join :: "'tok tokenizer \<Rightarrow> int \<Rightarrow> pystr \<Rightarrow> bool" where
  "bounded_join tk n c \<longleftrightarrow>
     (\<exists>ps. c = join_blank ps \<and> sum_list (map (count_tokens tk) ps) \<le> n)"

fun chunk_inv :: "'tok tokenizer \<Rightarrow> int \<Rightarrow> chunk_state \<Rightarrow> bool" where
  "chunk_inv tk n (chunks, cur, len) \<longleftrightarrow>
     len = sum_list (map (count_tokens tk) cur) \<and> (cur \<noteq> [] \<longrightarrow> len \<le> n) \<and>
     (\<forall>(t, c) \<in> set chunks. t \<noteq> Window \<longrightarrow> bounded_join tk n c)"

section \<open>Properties of the chunker\<close>

lemma token_windows_Nil [simp]: "token_windows n [] = []"
  by (simp add: token_windows.simps)

lemma token_windows_Cons [simp]:
  "0 < n \<Longrightarrow>
   token_windows n (x # xs) = take n (x # xs) # token_windows n (drop n (x # xs))"
  by (subst token_windows.simps) simp

lemmas chunker_defs =
  split_into_chunks_def split_into_chunks_tagged_def char_tokenizer_def count_tokens_def
  paragraphs_def split_blank_def strip_def is_space_def ascii_def split_sentences_def
  is_sentence_end_def hard_split_def

text \<open>
  C3 (short-input passthrough): a content whose token count is at most the chunk size
  is returned as the only chunk, unchanged.
\<close>

theorem split_into_chunks_short:
  assumes "count_tokens tk content \<le> max_tokens"
  shows "split_into_chunks tk max_tokens content = Inr [content]"
  using assms by (simp add: split_into_chunks_def split_into_chunks_tagged_def count_tokens_def)

theorem split_into_chunks_short_witness:
  "count_tokens char_tokenizer (ascii ''short text'') \<le> 6000 \<and>
   split_into_chunks char_tokenizer 6000 (ascii ''short text'') = Inr [ascii ''short text'']"
proof -
  have h: "count_tokens char_tokenizer (ascii ''short text'') \<le> 6000"
    by (simp add: count_tokens_def char_tokenizer_def ascii_def)
  show ?thesis
    using h split_into_chunks_short [OF h] by simp
qed

declare chunk_inv.simps [simp del]

lemma count_tokens_nonneg: "0 \<le> count_tokens tk s"
  by (simp add: count_tokens_def)

lemma chunk_inv_flush:
  assumes "chunk_inv tk n (chunks, cur, len)" and "count_tokens tk piece \<le> n"
  shows "chunk_inv tk n (chunks @ [(Joined, join_blank cur)], [piece], count_tokens tk piece)"
proof -
  have "0 \<le> n" using assms(2) count_tokens_nonneg [of tk piece] by linarith
  then have "sum_list (map (count_tokens tk) cur) \<le> n"
    using assms(1) by (cases "cur = []") (auto simp: chunk_inv.simps)
  then have "bounded_join tk n (join_blank cur)"
    unfolding bounded_join_def by blast
  then show ?thesis using assms by (auto simp: chunk_inv.simps)
qed

lemma chunk_inv_append:
  assumes "chunk_inv tk n (chunks, cur, len)" and "len + count_tokens tk piece \<le> n"
  shows "chunk_inv tk n (chunks, cur @ [piece], len + count_tokens tk piece)"
  using assms by (auto simp: chunk_inv.simps)

lemma chunk_inv_windows:
  assumes "chunk_inv tk n (chunks, cur, len)"
  shows "chunk_inv tk n (chunks @ map (Pair Window) subs, cur, len)"
  using assms by (auto simp: chunk_inv.simps)

lemma hard_split_total: "n \<noteq> 0 \<Longrightarrow> \<exists>subs. hard_split tk n toks = Inr subs"
  by (simp add: hard_split_def)

lemma sentence_loop_inv:
  assumes "n \<noteq> 0" and "chunk_inv tk n st"
  shows "\<exists>st'. sentence_loop tk n ss st = Inr st' \<and> chunk_inv tk n st'"
  using assms(2)
proof (induction ss arbitrary: st)
  case Nil
  then show ?case by simp
next
  case (Cons s ss)
  obtain chunks cur len where st: "st = (chunks, cur, len)"
    by (cases st) auto
  let ?k = "count_tokens tk s"
  consider (big) "?k > n" | (flush) "\<not> ?k > n" "len + ?k > n" | (app) "\<not> ?k > n" "\<not> len + ?k > n"
    by blast
  then show ?case
  proof cases
    case big
    obtain subs where subs: "hard_split tk n (tk_encode tk s) = Inr subs"
      using hard_split_total [OF assms(1)] by blast
    have "chunk_inv tk n (chunks @ map (Pair Window) subs, cur, len)"
      using Cons.prems st chunk_inv_windows by blast
    from Cons.IH [OF this] show ?thesis
      using big subs st by (simp add: count_tokens_def Let_def)
  next
    case flush
    have "chunk_inv tk n (chunks @ [(Joined, join_blank cur)], [s], ?k)"
      using Cons.prems st flush(1) by (intro chunk_inv_flush) simp_all
    from Cons.IH [OF this] show ?thesis
      using flush st by (simp add: count_tokens_def Let_def)
  next
    case app
    have "chunk_inv tk n (chunks, cur @ [s], len + ?k)"
      using Cons.prems st app(2) by (intro chunk_inv_append) simp_all
    from Cons.IH [OF this] show ?thesis
      using app st by (simp add: count_tokens_def Let_def)
  qed
qed

lemma paragraph_loop_inv:
  assumes "n \<noteq> 0" and "chunk_inv tk n st"
  shows "\<exists>st'. paragraph_loop tk n ps st = Inr st' \<and> chunk_inv tk n st'"
  using assms(2)
proof (induction ps arbitrary: st)
  case Nil
  then show ?case by simp
next
  case (Cons p ps)
  obtain chunks cur len where st: "st = (chunks, cur, len)"
    by (cases st) auto
  let ?k = "count_tokens tk p"
  consider (big) "?k > n" | (flush) "\<not> ?k > n" "len + ?k > n" | (app) "\<not> ?k > n" "\<not> len + ?k > n"
    by blast
  then show ?case
  proof cases
    case big
    obtain st1 where st1: "sentence_loop tk n (split_sentences p) st = Inr st1" "chunk_inv tk n st1"
      using sentence_loop_inv [OF assms(1) Cons.prems] by blast
    from Cons.IH [OF st1(2)] show ?thesis
      using big st1(1) st by (simp add: count_tokens_def Let_def)
  next
    case flush
    have "chunk_inv tk n (chunks @ [(Joined, join_blank cur)], [p], ?k)"
      using Cons.prems st flush(1) by (intro chunk_inv_flush) simp_all
    from Cons.IH [OF this] show ?thesis
      using flush st by (simp add: count_tokens_def Let_def)
  next
    case app
    have "chunk_inv tk n (chunks, cur @ [p], len + ?k)"
      using Cons.prems st app(2) by (intro chunk_inv_append) simp_all
    from Cons.IH [OF this] show ?thesis
      using app st by (simp add: count_tokens_def Let_def)
  qed
qed

text \<open>
  C1 (chunk size bound), as the code has it: for a chunk size of at least 1 the chunker
  returns, and every chunk that is not a window of the hard split is a join, with blank
  lines, of pieces whose token counts sum to at most the chunk size. The tokens of the
  chunk itself are not bounded: the separators that the join adds are not counted.
\<close>

theorem split_into_chunks_piece_bound:
  assumes "1 \<le> max_tokens"
  shows "\<exists>out. split_into_chunks_tagged tk max_tokens content = Inr out \<and>
           (\<forall>(t, c) \<in> set out. t \<noteq> Window \<longrightarrow>
              (\<exists>ps. c = join_blank ps \<and> sum_list (map (count_tokens tk) ps) \<le> max_tokens))"
proof (cases "count_tokens tk content \<le> max_tokens")
  case True
  have "content = join_blank [content]" by simp
  moreover have "sum_list (map (count_tokens tk) [content]) \<le> max_tokens"
    using True by simp
  ultimately have "\<exists>ps. content = join_blank ps \<and> sum_list (map (count_tokens tk) ps) \<le> max_tokens"
    by blast
  then show ?thesis
    using True by (simp add: split_into_chunks_tagged_def count_tokens_def)
next
  case False
  have n0: "max_tokens \<noteq> 0" using assms by simp
  have "chunk_inv tk max_tokens ([], [], 0)" by (simp add: chunk_inv.simps)
  from paragraph_loop_inv [OF n0 this]
  obtain chunks cur len where run: "paragraph_loop tk max_tokens (paragraphs content) ([], [], 0) = Inr (chunks, cur, len)"
    and inv: "chunk_inv tk max_tokens (chunks, cur, len)"
    by (metis prod_cases3)
  have "cur \<noteq> [] \<Longrightarrow> bounded_join tk max_tokens (join_blank cur)"
    using inv unfolding bounded_join_def by (auto simp: chunk_inv.simps)
  then have "\<forall>(t, c) \<in> set (if cur \<noteq> [] then chunks @ [(Joined, join_blank cur)] else chunks).
               t \<noteq> Window \<longrightarrow> bounded_join tk max_tokens c"
    using inv by (auto simp: chunk_inv.simps)
  then show ?thesis
    using False run by (simp add: split_into_chunks_tagged_def count_tokens_def bounded_join_def)
qed

theorem split_into_chunks_piece_bound_witness:
  "(1::int) \<le> 4 \<and>
   split_into_chunks_tagged char_tokenizer 4
     (ascii ''ab'' @ [10, 10] @ ascii ''cd'' @ [10, 10] @ ascii ''ef'') =
     Inr [(Joined, ascii ''ab'' @ [10, 10] @ ascii ''cd''), (Joined, ascii ''ef'')] \<and>
   (\<exists>ps. ascii ''ef'' = join_blank ps \<and>
         sum_list (map (count_tokens char_tokenizer) ps) \<le> 4)"
proof -
  let ?content = "ascii ''ab'' @ [10, 10] @ ascii ''cd'' @ [10, 10] @ ascii ''ef''"
  have run: "split_into_chunks_tagged char_tokenizer 4 ?content =
               Inr [(Joined, ascii ''ab'' @ [10, 10] @ ascii ''cd''), (Joined, ascii ''ef'')]"
    by (simp add: chunker_defs)
  have "(1::int) \<le> 4" by simp
  from split_into_chunks_piece_bound [OF this, of char_tokenizer ?content] run
  show ?thesis by simp
qed

text \<open>
  C1 as stated fails: with one token for each character and a chunk size of 4, the
  paragraphs \<open>ab\<close>, \<open>cd\<close>, \<open>ef\<close> have 2 tokens each, the first two are joined into one
  chunk, which is no window of a hard split and has 6 tokens.
\<close>

theorem split_into_chunks_bound_counterexample:
  "split_into_chunks_tagged char_tokenizer 4
     (ascii ''ab'' @ [10, 10] @ ascii ''cd'' @ [10, 10] @ ascii ''ef'') =
     Inr [(Joined, ascii ''ab'' @ [10, 10] @ ascii ''cd''), (Joined, ascii ''ef'')] \<and>
   \<not> count_tokens char_tokenizer (ascii ''ab'' @ [10, 10] @ ascii ''cd'') \<le> 4"
  by (simp add: chunker_defs)

text \<open>
  C2 (coverage in the original order) at a content with a short sentence before an
  oversized one: the windows of the hard split are appended while \<open>ab.\<close> is still held
  in \<open>current_chunk\<close>, so the chunks give the text out of order.
\<close>

theorem split_into_chunks_reorders:
  "split_into_chunks char_tokenizer 4 (ascii ''ab. cdefghij. kl.'') =
     Inr [ascii ''cdef'', ascii ''ghij'', ascii ''.'', ascii ''ab.'', ascii ''kl.''] \<and>
   filter (\<lambda>c. \<not> is_space c)
     (concat [ascii ''cdef'', ascii ''ghij'', ascii ''.'', ascii ''ab.'', ascii ''kl.'']) \<noteq>
   filter (\<lambda>c. \<not> is_space c) (ascii ''ab. cdefghij. kl.'')"
  by (simp add: chunker_defs)

section \<open>Properties of the cleaning step\<close>















section \<open>Properties of the summarization loop\<close>

lemma decimal_small: "n < 10 \<Longrightarrow> decimal n = [48 + n]"
  by (subst decimal.simps) simp

lemma decimal_big: "10 \<le> n \<Longrightarrow> decimal n = decimal (n div 10) @ [48 + n mod 10]"
  by (subst decimal.simps) simp

lemma decimal_value: "foldl (\<lambda>a d. 10 * a + (d - 48)) 0 (decimal n) = n"
proof (induction n rule: decimal.induct)
  case (1 n)
  show ?case
  proof (cases "n < 10")
    case True
    then show ?thesis by (simp add: decimal_small)
  next
    case False
    then have "foldl (\<lambda>a d. 10 * a + (d - 48)) 0 (decimal (n div 10)) = n div 10"
      using 1 by simp
    then show ?thesis using False by (simp add: decimal_big)
  qed
qed

lemma decimal_inj: "decimal a = decimal b \<Longrightarrow> a = b"
  by (metis decimal_value)

lemma placeholder_inj: "placeholder a = placeholder b \<Longrightarrow> a = b"
  by (auto simp: placeholder_def dest: decimal_inj)

lemma summarize_each_length: "length (summarize_each env i chunks) = length chunks"
  by (induction chunks arbitrary: i) auto

lemma summarize_each_nth:
  "k < length chunks \<Longrightarrow>
   summarize_each env i chunks ! k =
     (case generate_summary env (i + k) (chunks ! k) of
        Inl e \<Rightarrow> placeholder (i + k)
      | Inr summary_obj \<Rightarrow> to_text summary_obj)"
proof (induction chunks arbitrary: i k)
  case Nil
  then show ?case by simp
next
  case (Cons c cs)
  show ?case
  proof (cases k)
    case 0
    then show ?thesis by (simp split: sum.splits)
  next
    case (Suc j)
    then have "j < length cs" using Cons.prems by simp
    from Cons.IH [OF this, of "Suc i"] show ?thesis using Suc by (simp split: sum.splits)
  qed
qed

text \<open>
  C4 (summary-chunk pairing): the loop returns one summary for each chunk, in order; the
  summary of a chunk whose call failed is the placeholder of its index, and the
  placeholders of different indices differ. The loop itself never fails.
\<close>

theorem summarize_each_pairing:
  "length (summarize_each env 0 chunks) = length chunks \<and>
   (\<forall>k < length chunks.
      summarize_each env 0 chunks ! k =
        (case generate_summary env k (chunks ! k) of
           Inl e \<Rightarrow> placeholder k
         | Inr summary_obj \<Rightarrow> to_text summary_obj)) \<and>
   (\<forall>j k. placeholder j = placeholder k \<longrightarrow> j = k)"
  using summarize_each_length [of env 0 chunks] summarize_each_nth [of _ chunks env 0]
    placeholder_inj
  by (auto split: sum.splits)

theorem summarize_each_pairing_witness:
  "length (summarize_each
             (example_env\<lparr>generate_summary :=
                (\<lambda>i chunk. if i = 1 then Inl (OtherException (ascii ''timeout''))
                            else Inr (Str chunk))\<rparr>)
             0 [ascii ''ab.'', ascii ''cd.'', ascii ''ef.'']) = 3 \<and>
   summarize_each
     (example_env\<lparr>generate_summary :=
        (\<lambda>i chunk. if i = 1 then Inl (OtherException (ascii ''timeout''))
                    else Inr (Str chunk))\<rparr>)
     0 [ascii ''ab.'', ascii ''cd.'', ascii ''ef.''] ! 1 =
     [91, 22359, 32, 50, 32, 22788, 29702, 38169, 35823, 93]"
proof -
  let ?env = "example_env\<lparr>generate_summary :=
                (\<lambda>i chunk. if i = 1 then Inl (OtherException (ascii ''timeout''))
                            else Inr (Str chunk))\<rparr>"
  let ?chunks = "[ascii ''ab.'', ascii ''cd.'', ascii ''ef.'']"
  note t = summarize_each_pairing [of ?env ?chunks]
  have len: "length (summarize_each ?env 0 ?chunks) = length ?chunks"
    using t by (rule conjunct1)
  have "\<forall>k < length ?chunks.
          summarize_each ?env 0 ?chunks ! k =
            (case generate_summary ?env k (?chunks ! k) of
               Inl e \<Rightarrow> placeholder k
             | Inr summary_obj \<Rightarrow> to_text summary_obj)"
    using t by blast
  moreover have "(1::nat) < length ?chunks" by simp
  ultimately have "summarize_each ?env 0 ?chunks ! 1 =
      (case generate_summary ?env 1 (?chunks ! 1) of
         Inl e \<Rightarrow> placeholder 1
       | Inr summary_obj \<Rightarrow> to_text summary_obj)"
    by blast
  also have "\<dots> = [91, 22359, 32, 50, 32, 22788, 29702, 38169, 35823, 93]"
    by (simp add: placeholder_def decimal_small)
  finally have nth: "summarize_each ?env 0 ?chunks ! 1 =
      [91, 22359, 32, 50, 32, 22788, 29702, 38169, 35823, 93]" .
  have l3: "length ?chunks = 3" by simp
  show ?thesis
    using len nth l3 by (simp only:)
qed

section \<open>Properties of the storage\<close>

lemma url_to_id_nonempty: "url_to_id ck url \<noteq> []"
  by (simp add: url_to_id_def)

lemma save_summary_id_nonempty: "fst (save_summary ck st url content) \<noteq> []"
  by (simp add: save_summary_def Let_def url_to_id_nonempty split: option.splits)

lemma save_summary_index:
  "load_index (snd (save_summary ck st url content)) url =
     Some \<lparr>md_id = fst (save_summary ck st url content), md_url = url,
           md_timestamp = now_formatted ck, md_timestamp_unix = time_unix ck,
           md_preview = map (\<lambda>c. if c = 10 then 32 else c) (take 200 content)\<rparr>"
  by (simp add: save_summary_def Let_def load_index_def save_index_def)

lemma save_summary_dom:
  "dom (load_index (snd (save_summary ck st url content))) = insert url (dom (load_index st))"
  by (simp add: save_summary_def Let_def load_index_def save_index_def)

lemma save_summary_files:
  "summary_files (snd (save_summary ck st url content)) =
     (summary_files st)(fst (save_summary ck st url content) \<mapsto> content)"
  by (simp add: save_summary_def Let_def save_index_def)

lemma save_summary_reuses_id:
  "load_index st url = Some md \<Longrightarrow> md_id md \<noteq> [] \<Longrightarrow>
   fst (save_summary ck st url content) = md_id md"
  by (simp add: save_summary_def Let_def)

lemma universal_newlines_no_cr: "13 \<notin> set (universal_newlines s)"
  by (induction s rule: universal_newlines.induct) auto

lemma universal_newlines_id: "13 \<notin> set s \<Longrightarrow> universal_newlines s = s"
  by (induction s rule: universal_newlines.induct) auto

lemma universal_newlines_idem: "universal_newlines (universal_newlines s) = universal_newlines s"
  by (rule universal_newlines_id) (rule universal_newlines_no_cr)

lemma get_after_save:
  "map_option si_content (get_summary_by_url (snd (save_summary ck st url content)) url) =
     Some (universal_newlines content)"
  by (simp add: get_summary_by_url_def save_summary_index save_summary_files)

text \<open>
  C8 (Scenario E), as the code has it: two saves for one URL return the same id, the
  record of the URL carries that id after each save, the second save adds no URL to the
  index and no summary file, and reading the URL gives the second content as a text-mode
  read returns it, which is the second content itself when it has no carriage return.
\<close>

theorem save_summary_twice:
  "fst (save_summary ck2 (snd (save_summary ck1 st url c1)) url c2) =
     fst (save_summary ck1 st url c1) \<and>
   map_option md_id (load_index (snd (save_summary ck1 st url c1)) url) =
     Some (fst (save_summary ck1 st url c1)) \<and>
   map_option md_id
     (load_index (snd (save_summary ck2 (snd (save_summary ck1 st url c1)) url c2)) url) =
     Some (fst (save_summary ck1 st url c1)) \<and>
   dom (load_index (snd (save_summary ck2 (snd (save_summary ck1 st url c1)) url c2))) =
     dom (load_index (snd (save_summary ck1 st url c1))) \<and>
   dom (summary_files (snd (save_summary ck2 (snd (save_summary ck1 st url c1)) url c2))) =
     dom (summary_files (snd (save_summary ck1 st url c1))) \<and>
   map_option si_content
     (get_summary_by_url (snd (save_summary ck2 (snd (save_summary ck1 st url c1)) url c2)) url) =
     Some (universal_newlines c2) \<and>
   (13 \<notin> set c2 \<longrightarrow> universal_newlines c2 = c2)"
proof -
  let ?r1 = "save_summary ck1 st url c1"
  let ?r2 = "save_summary ck2 (snd ?r1) url c2"
  have same: "fst ?r2 = fst ?r1"
    using save_summary_reuses_id [of "snd ?r1" url _ ck2 c2]
      save_summary_index [of ck1 st url c1] save_summary_id_nonempty [of ck1 st url c1]
    by simp
  have i1: "map_option md_id (load_index (snd ?r1) url) = Some (fst ?r1)"
    by (simp add: save_summary_index)
  have i2: "map_option md_id (load_index (snd ?r2) url) = Some (fst ?r1)"
    by (simp add: save_summary_index same)
  have "url \<in> dom (load_index (snd ?r1))"
    by (simp add: save_summary_dom)
  then have d: "dom (load_index (snd ?r2)) = dom (load_index (snd ?r1))"
    by (simp only: save_summary_dom [of ck2] insert_absorb)
  have "fst ?r1 \<in> dom (summary_files (snd ?r1))"
    by (simp add: save_summary_files)
  then have f: "dom (summary_files (snd ?r2)) = dom (summary_files (snd ?r1))"
    by (simp add: save_summary_files [of ck2] same insert_absorb)
  have g: "map_option si_content (get_summary_by_url (snd ?r2) url) =
             Some (universal_newlines c2)"
    by (rule get_after_save)
  have h: "13 \<notin> set c2 \<longrightarrow> universal_newlines c2 = c2"
    by (simp add: universal_newlines_id)
  show ?thesis
    by (intro conjI same i1 i2 d f g h)
qed

theorem save_summary_twice_witness:
  "fst (save_summary example_clock
          (snd (save_summary example_clock (store example_world) (ascii ''http://a'')
                  (ascii ''first'')))
          (ascii ''http://a'') (ascii ''second'')) =
     fst (save_summary example_clock (store example_world) (ascii ''http://a'')
            (ascii ''first'')) \<and>
   13 \<notin> set (ascii ''second'') \<and>
   map_option si_content
     (get_summary_by_url
        (snd (save_summary example_clock
                (snd (save_summary example_clock (store example_world) (ascii ''http://a'')
                        (ascii ''first'')))
                (ascii ''http://a'') (ascii ''second'')))
        (ascii ''http://a'')) = Some (ascii ''second'')"
proof -
  note t = save_summary_twice [of example_clock example_clock "store example_world"
      "ascii ''http://a''" "ascii ''first''" "ascii ''second''"]
  have n: "13 \<notin> set (ascii ''second'')"
    by (simp add: ascii_def)
  have u: "universal_newlines (ascii ''second'') = ascii ''second''"
    using t n by blast
  have g: "map_option si_content
             (get_summary_by_url
                (snd (save_summary example_clock
                        (snd (save_summary example_clock (store example_world)
                                (ascii ''http://a'') (ascii ''first'')))
                        (ascii ''http://a'') (ascii ''second'')))
                (ascii ''http://a'')) = Some (universal_newlines (ascii ''second''))"
    using t by blast
  show ?thesis
    by (intro conjI conjunct1 [OF t] n g [unfolded u])
qed

text \<open>
  C8 as stated fails for a content with a carriage return: \<open>a\rb\<close> is stored and read
  back as \<open>a\nb\<close>.
\<close>

theorem save_summary_twice_counterexample:
  "map_option si_content
     (get_summary_by_url
        (snd (save_summary example_clock
                (snd (save_summary example_clock (store example_world) (ascii ''http://a'')
                        (ascii ''first'')))
                (ascii ''http://a'') [97, 13, 98]))
        (ascii ''http://a'')) = Some [97, 10, 98] \<and>
   [97, 10, 98] \<noteq> [97, 13, (98::nat)]"
  by (simp add: get_after_save)

text \<open>
  C10: a URL whose index entry names a summary file that does not exist reads as
  \<open>None\<close>, as a URL that is not in the index does; no exception is raised.
\<close>

theorem get_summary_by_url_missing_file:
  assumes "load_index st url = Some metadata"
    and "summary_files st (md_id metadata) = None"
    and "load_index st other = None"
  shows "get_summary_by_url st url = None \<and>
         get_summary_by_url st other = get_summary_by_url st url"
  using assms by (simp add: get_summary_by_url_def)

theorem get_summary_by_url_missing_file_witness:
  "load_index dangling_storage (ascii ''http://a'') =
     Some \<lparr>md_id = ascii ''id1'', md_url = ascii ''http://a'',
           md_timestamp = ascii ''2024-01-01 00:00:00'',
           md_timestamp_unix = 1700000000, md_preview = ascii ''text''\<rparr> \<and>
   summary_files dangling_storage (ascii ''id1'') = None \<and>
   load_index dangling_storage (ascii ''http://b'') = None \<and>
   get_summary_by_url dangling_storage (ascii ''http://a'') = None \<and>
   get_summary_by_url dangling_storage (ascii ''http://b'') =
     get_summary_by_url dangling_storage (ascii ''http://a'')"
proof -
  let ?md = "\<lparr>md_id = ascii ''id1'', md_url = ascii ''http://a'',
               md_timestamp = ascii ''2024-01-01 00:00:00'',
               md_timestamp_unix = 1700000000, md_preview = ascii ''text''\<rparr>"
  have a: "load_index dangling_storage (ascii ''http://a'') = Some ?md"
    by (simp add: load_index_def dangling_storage_def)
  have b: "summary_files dangling_storage (md_id ?md) = None"
    by (simp add: dangling_storage_def)
  have c: "load_index dangling_storage (ascii ''http://b'') = None"
    by (simp add: load_index_def dangling_storage_def ascii_def)
  note t = get_summary_by_url_missing_file [OF a b c]
  have b': "summary_files dangling_storage (ascii ''id1'') = None"
    using b by simp
  show ?thesis
    by (intro conjI a b' c conjunct1 [OF t] conjunct2 [OF t])
qed

section \<open>Properties of the pipeline\<close>

lemma start_summarization_cached:
  "get_summary_by_url (store w) url = Some info \<Longrightarrow>
   start_summarization env w url = (Inr (si_content info), w)"
  by (simp add: start_summarization_def)

lemma get_after_save_pair:
  "save_summary ck st url content = (summary_id, st') \<Longrightarrow>
   \<exists>info. get_summary_by_url st' url = Some info \<and>
          si_content info = universal_newlines content"
  using get_after_save [of ck st url content] by auto

lemma get_summary_by_url_read:
  "get_summary_by_url st url = Some info \<Longrightarrow>
   universal_newlines (si_content info) = si_content info"
  by (auto simp: get_summary_by_url_def universal_newlines_idem split: option.splits)

lemma start_summarization_caches:
  assumes "start_summarization env w url = (Inr result, w')"
  shows "map_option si_content (get_summary_by_url (store w') url) =
           Some (universal_newlines result)"
proof (cases "get_summary_by_url (store w) url")
  case (Some info)
  then show ?thesis
    using assms get_summary_by_url_read [OF Some]
    by (auto simp: start_summarization_def)
next
  case None
  then show ?thesis
    using assms
    by (auto simp: start_summarization_def Let_def dest: get_after_save_pair
          split: option.splits sum.splits prod.splits if_splits)
qed

text \<open>
  C5 (cache idempotence), as the code has it: after a run that returned a summary, a
  second run for the same URL, in whatever environment, leaves the world as it is (no
  file is written and no agent is called) and returns the summary as a text-mode read
  of its file gives it, which is the summary itself when it has no carriage return.
\<close>

theorem start_summarization_idempotent:
  assumes "start_summarization env w url = (Inr result, w')"
  shows "map_option si_content (get_summary_by_url (store w') url) =
           Some (universal_newlines result) \<and>
         start_summarization env' w' url = (Inr (universal_newlines result), w') \<and>
         (13 \<notin> set result \<longrightarrow> start_summarization env' w' url = (Inr result, w'))"
proof -
  note c = start_summarization_caches [OF assms]
  then obtain info where "get_summary_by_url (store w') url = Some info"
    "si_content info = universal_newlines result"
    by auto
  then have s: "start_summarization env' w' url = (Inr (universal_newlines result), w')"
    using start_summarization_cached [of w' url info env'] by simp
  then have "13 \<notin> set result \<longrightarrow> start_summarization env' w' url = (Inr result, w')"
    by (simp add: universal_newlines_id)
  with c s show ?thesis by (intro conjI)
qed

lemma example_chunks:
  "process_content char_tokenizer 4 (ascii ''ab. cd. ef.'') =
     Inr [ascii ''ab.'', ascii ''cd.'', ascii ''ef.'']"
  by (simp add: process_content_def clean_content_def is_kept_def after_last_newline_def
        chunker_defs)

lemma example_summaries:
  "summarize_each example_env 0 [ascii ''ab.'', ascii ''cd.'', ascii ''ef.''] =
     [ascii ''A discusses X.'', ascii ''B discusses Y.'', ascii ''C discusses Z.'']"
  by (simp add: example_env_def)

lemma example_miss: "get_summary_by_url (store example_world) url = None"
  by (simp add: example_world_def get_summary_by_url_def load_index_def)

lemma example_fetch:
  "fst (fetch_webpage (md5_hexdigest (the_clock example_env)) (fetcher_fetch example_env)
          (web example_world) url) = Some (ascii ''ab. cd. ef.'')"
  by (simp add: fetch_webpage_def example_env_def example_world_def)

lemma start_summarization_result:
  assumes "get_summary_by_url (store w) url = None"
    and "fst (fetch_webpage (md5_hexdigest (the_clock env)) (fetcher_fetch env) (web w) url) =
           Some content"
    and "content \<noteq> []"
    and "process_content (tokenizer env) (chunk_size env) content = Inr chunks"
  shows "fst (start_summarization env w url) =
           Inr (fst (integrate_stage env url (summarize_each env 0 chunks)))"
  using assms
  by (auto simp: start_summarization_def Let_def split: prod.splits)

lemma example_run:
  "fst (start_summarization example_env example_world (ascii ''http://a'')) =
     Inr (ascii ''A discusses X.'' @ [10, 10] @ ascii ''B discusses Y.'' @ [10, 10] @
          ascii ''C discusses Z.'')"
proof -
  let ?chunks = "[ascii ''ab.'', ascii ''cd.'', ascii ''ef.'']"
  have p: "process_content (tokenizer example_env) (chunk_size example_env)
             (ascii ''ab. cd. ef.'') = Inr ?chunks"
    using example_chunks by (simp add: example_env_def)
  have n: "ascii ''ab. cd. ef.'' \<noteq> []"
    by (simp add: ascii_def)
  have "fst (integrate_stage example_env (ascii ''http://a'')
               (summarize_each example_env 0 ?chunks)) =
          ascii ''A discusses X.'' @ [10, 10] @ ascii ''B discusses Y.'' @ [10, 10] @
          ascii ''C discusses Z.''"
    by (simp add: example_summaries integrate_stage_def) (simp add: example_env_def)
  with start_summarization_result [OF example_miss example_fetch n p] show ?thesis
    by simp
qed

text \<open>
  C7 (integration fallback): when the page was fetched and cut into two chunks or more
  and the integration call fails, the run still returns: the final summary is the join,
  with blank lines, of the chunk summaries in order.
\<close>

theorem integration_failure_fallback:
  assumes "get_summary_by_url (store w) url = None"
    and "fst (fetch_webpage (md5_hexdigest (the_clock env)) (fetcher_fetch env) (web w) url) =
           Some content"
    and "content \<noteq> []"
    and "process_content (tokenizer env) (chunk_size env) content = Inr chunks"
    and "2 \<le> length chunks"
    and "integrate_summaries env (summarize_each env 0 chunks) url = Inl e"
  shows "fst (integrate_stage env url (summarize_each env 0 chunks)) =
           join_blank (summarize_each env 0 chunks) \<and>
         fst (start_summarization env w url) =
           Inr (join_blank (summarize_each env 0 chunks))"
proof -
  have "length (summarize_each env 0 chunks) \<noteq> 1"
    using assms(5) by (simp add: summarize_each_length)
  then have stage: "fst (integrate_stage env url (summarize_each env 0 chunks)) =
                      join_blank (summarize_each env 0 chunks)"
    using assms(6) by (simp add: integrate_stage_def)
  have run: "fst (start_summarization env w url) =
               Inr (join_blank (summarize_each env 0 chunks))"
    using start_summarization_result [OF assms(1-4)] stage by simp
  from stage run show ?thesis
    by (intro conjI)
qed

theorem integration_failure_fallback_witness:
  "fst (start_summarization example_env example_world (ascii ''http://a'')) =
     Inr (ascii ''A discusses X.'' @ [10, 10] @ ascii ''B discusses Y.'' @ [10, 10] @
          ascii ''C discusses Z.'')"
proof -
  let ?chunks = "[ascii ''ab.'', ascii ''cd.'', ascii ''ef.'']"
  have p: "process_content (tokenizer example_env) (chunk_size example_env)
             (ascii ''ab. cd. ef.'') = Inr ?chunks"
    using example_chunks by (simp add: example_env_def)
  have n: "ascii ''ab. cd. ef.'' \<noteq> []"
    by (simp add: ascii_def)
  have l: "2 \<le> length ?chunks"
    by simp
  have i: "integrate_summaries example_env (summarize_each example_env 0 ?chunks)
             (ascii ''http://a'') = Inl (OtherException (ascii ''backend down''))"
    by (simp add: example_env_def)
  note t = integration_failure_fallback [OF example_miss example_fetch n p l i]
  have "fst (start_summarization example_env example_world (ascii ''http://a'')) =
          Inr (join_blank (summarize_each example_env 0 ?chunks))"
    using t by blast
  then show ?thesis
    by (simp only: example_summaries join_blank.simps)
qed

lemma fetch_webpage_failure:
  "content_files wc (md5 url) = None \<Longrightarrow> fetch url = Inl e \<Longrightarrow>
   fetch_webpage md5 fetch wc url = (None, wc)"
  by (simp add: fetch_webpage_def)

text \<open>
  C6 (fatal fetch failure): when no summary is cached for the URL and the fetch agent
  returns nothing or the empty string, the run raises the ValueError of the orchestrator
  and the storage of summaries, index and files, is the one before the run.
\<close>

theorem fetch_failure_is_fatal:
  assumes "get_summary_by_url (store w) url = None"
    and "fst (fetch_webpage (md5_hexdigest (the_clock env)) (fetcher_fetch env) (web w) url) =
           None \<or>
         fst (fetch_webpage (md5_hexdigest (the_clock env)) (fetcher_fetch env) (web w) url) =
           Some []"
  shows "fst (start_summarization env w url) = Inl (cannot_fetch url) \<and>
         store (snd (start_summarization env w url)) = store w"
  using assms
  by (auto simp: start_summarization_def Let_def split: prod.splits)

theorem fetch_failure_is_fatal_witness:
  "fst (start_summarization
          (example_env\<lparr>fetcher_fetch :=
             (\<lambda>url. Inl (OtherException (ascii ''connection refused'')))\<rparr>)
          example_world (ascii ''http://a'')) = Inl (cannot_fetch (ascii ''http://a'')) \<and>
   store (snd (start_summarization
                 (example_env\<lparr>fetcher_fetch :=
                    (\<lambda>url. Inl (OtherException (ascii ''connection refused'')))\<rparr>)
                 example_world (ascii ''http://a''))) = store example_world"
proof -
  let ?env = "example_env\<lparr>fetcher_fetch :=
                (\<lambda>url. Inl (OtherException (ascii ''connection refused'')))\<rparr>"
  have "fetch_webpage (md5_hexdigest (the_clock ?env)) (fetcher_fetch ?env)
          (web example_world) (ascii ''http://a'') = (None, web example_world)"
    by (rule fetch_webpage_failure) (simp_all add: example_world_def)
  then have "fst (fetch_webpage (md5_hexdigest (the_clock ?env)) (fetcher_fetch ?env)
                    (web example_world) (ascii ''http://a'')) = None \<or>
             fst (fetch_webpage (md5_hexdigest (the_clock ?env)) (fetcher_fetch ?env)
                    (web example_world) (ascii ''http://a'')) = Some []"
    by simp
  from fetch_failure_is_fatal [OF example_miss this] show ?thesis .
qed

theorem start_summarization_idempotent_witness:
  "fst (start_summarization example_env example_world (ascii ''http://a'')) =
     Inr (ascii ''A discusses X.'' @ [10, 10] @ ascii ''B discusses Y.'' @ [10, 10] @
          ascii ''C discusses Z.'') \<and>
   13 \<notin> set (ascii ''A discusses X.'' @ [10, 10] @ ascii ''B discusses Y.'' @ [10, 10] @
               ascii ''C discusses Z.'') \<and>
   start_summarization
     (example_env\<lparr>fetcher_fetch :=
        (\<lambda>url. Inl (OtherException (ascii ''connection refused'')))\<rparr>)
     (snd (start_summarization example_env example_world (ascii ''http://a'')))
     (ascii ''http://a'') =
     (Inr (ascii ''A discusses X.'' @ [10, 10] @ ascii ''B discusses Y.'' @ [10, 10] @
           ascii ''C discusses Z.''),
      snd (start_summarization example_env example_world (ascii ''http://a'')))"
proof -
  let ?r = "ascii ''A discusses X.'' @ [10, 10] @ ascii ''B discusses Y.'' @ [10, 10] @
            ascii ''C discusses Z.''"
  let ?run = "start_summarization example_env example_world (ascii ''http://a'')"
  have f: "fst ?run = Inr ?r"
    by (rule example_run)
  then have "?run = (Inr ?r, snd ?run)"
    by (metis prod.collapse)
  note t = start_summarization_idempotent [OF this]
  have n: "13 \<notin> set ?r"
    by (simp add: ascii_def)
  then have u: "universal_newlines ?r = ?r"
    by (rule universal_newlines_id)
  show ?thesis
    by (intro conjI f n conjunct1 [OF conjunct2 [OF t], unfolded u])
qed

lemma example_cr_run:
  "fst (start_summarization
          (example_env\<lparr>chunk_size := 6000,
             generate_summary := (\<lambda>i chunk. Inr (Str [120, 13, 10, 121]))\<rparr>)
          example_world (ascii ''http://a'')) = Inr [120, 13, 10, 121]"
proof -
  let ?env = "example_env\<lparr>chunk_size := 6000,
                generate_summary := (\<lambda>i chunk. Inr (Str [120, 13, 10, 121]))\<rparr>"
  have m: "get_summary_by_url (store example_world) (ascii ''http://a'') = None"
    by (rule example_miss)
  have f: "fst (fetch_webpage (md5_hexdigest (the_clock ?env)) (fetcher_fetch ?env)
                  (web example_world) (ascii ''http://a'')) = Some (ascii ''ab. cd. ef.'')"
    by (simp add: fetch_webpage_def example_env_def example_world_def)
  have n: "ascii ''ab. cd. ef.'' \<noteq> []"
    by (simp add: ascii_def)
  have p: "process_content (tokenizer ?env) (chunk_size ?env) (ascii ''ab. cd. ef.'') =
             Inr [ascii ''ab. cd. ef.'']"
    by (simp add: example_env_def process_content_def clean_content_def is_kept_def
          after_last_newline_def chunker_defs)
  have "fst (integrate_stage ?env (ascii ''http://a'')
               (summarize_each ?env 0 [ascii ''ab. cd. ef.''])) = [120, 13, 10, 121]"
    by (simp add: integrate_stage_def)
  with start_summarization_result [OF m f n p] show ?thesis
    by simp
qed

text \<open>
  C5 as stated fails for a summary with a carriage return: the first run returns
  \<open>x\r\ny\<close> and writes it to the summary file as it is, and the second run returns
  \<open>x\ny\<close>, which is neither the summary of the first run nor the text of the file.
\<close>

theorem start_summarization_idempotent_counterexample:
  "fst (start_summarization
          (example_env\<lparr>chunk_size := 6000,
             generate_summary := (\<lambda>i chunk. Inr (Str [120, 13, 10, 121]))\<rparr>)
          example_world (ascii ''http://a'')) = Inr [120, 13, 10, 121] \<and>
   fst (start_summarization
          (example_env\<lparr>chunk_size := 6000,
             generate_summary := (\<lambda>i chunk. Inr (Str [120, 13, 10, 121]))\<rparr>)
          (snd (start_summarization
                  (example_env\<lparr>chunk_size := 6000,
                     generate_summary := (\<lambda>i chunk. Inr (Str [120, 13, 10, 121]))\<rparr>)
                  example_world (ascii ''http://a'')))
          (ascii ''http://a'')) = Inr [120, 10, 121] \<and>
   [120, 10, 121] \<noteq> [120, 13, 10, (121::nat)]"
proof -
  let ?env = "example_env\<lparr>chunk_size := 6000,
                generate_summary := (\<lambda>i chunk. Inr (Str [120, 13, 10, 121]))\<rparr>"
  let ?run = "start_summarization ?env example_world (ascii ''http://a'')"
  have f: "fst ?run = Inr [120, 13, 10, 121]"
    by (rule example_cr_run)
  then have "?run = (Inr [120, 13, 10, 121], snd ?run)"
    by (metis prod.collapse)
  from start_summarization_caches [OF this]
  obtain info where i: "get_summary_by_url (store (snd ?run)) (ascii ''http://a'') = Some info"
    and c: "si_content info = universal_newlines [120, 13, 10, 121]"
    by auto
  have "start_summarization ?env (snd ?run) (ascii ''http://a'') =
          (Inr (si_content info), snd ?run)"
    using i by (rule start_summarization_cached)
  then have s: "fst (start_summarization ?env (snd ?run) (ascii ''http://a'')) =
                  Inr [120, 10, 121]"
    by (simp add: c)
  have d: "[120, 10, 121] \<noteq> [120, 13, 10, (121::nat)]"
    by simp
  show ?thesis
    by (intro conjI f s d)
qed

end
